theory Spec2Isabelle
  imports Main
begin

section \<open>ChatLock (orchestrator/chat-lock.ts)\<close>

text \<open>
  The lock is a boolean flag and a FIFO list of parked resolve callbacks. A caller is
  identified by a number. Calling a resolve callback does not run the parked caller: it
  schedules the continuation of its \<open>await\<close>, which runs after the current synchronous
  code has finished. The field \<open>woken\<close> holds these scheduled continuations in
  the order they were scheduled, and \<open>acquired\<close> records the callers whose
  \<open>acquire()\<close> has returned, in order.
\<close>

type_synonym caller = nat

record ChatLock =
  locked :: bool
  waiters :: "caller list"
  woken :: "caller list"
  acquired :: "caller list"

definition newChatLock :: ChatLock where
  "newChatLock = \<lparr>locked = False, waiters = [], woken = [], acquired = []\<rparr>"

text \<open>
  One evaluation of \<open>while (this.locked) { await new Promise(r => this.waiters.push(r)) }
  this.locked = true\<close>: with the flag set the caller parks (and the loop is evaluated
  again when it is resumed), otherwise it takes the lock and returns.
\<close>

definition acquire :: "caller \<Rightarrow> ChatLock \<Rightarrow> ChatLock" where
  "acquire c l =
     (if locked l then l\<lparr>waiters := waiters l @ [c]\<rparr>
      else l\<lparr>locked := True, acquired := acquired l @ [c]\<rparr>)"

definition release :: "ChatLock \<Rightarrow> ChatLock" where
  "release l =
     (let l1 = l\<lparr>locked := False\<rparr> in
      case waiters l1 of
        [] \<Rightarrow> l1
      | next # rest \<Rightarrow> l1\<lparr>waiters := rest, woken := woken l1 @ [next]\<rparr>)"

text \<open>The oldest scheduled continuation runs: the woken caller re-enters the loop.\<close>

definition resume :: "ChatLock \<Rightarrow> ChatLock" where
  "resume l =
     (case woken l of
        [] \<Rightarrow> l
      | c # cs \<Rightarrow> acquire c (l\<lparr>woken := cs\<rparr>))"

definition isLocked :: "ChatLock \<Rightarrow> bool" where
  "isLocked l = locked l"

datatype lock_event = Acquire caller | Release | Resume

fun lock_step :: "ChatLock \<Rightarrow> lock_event \<Rightarrow> ChatLock" where
  "lock_step l (Acquire c) = acquire c l"
| "lock_step l Release = release l"
| "lock_step l Resume = resume l"

definition lock_run :: "lock_event list \<Rightarrow> ChatLock" where
  "lock_run evs = foldl lock_step newChatLock evs"

section \<open>Properties of ChatLock\<close>

text \<open>
  C2, as stated, fails: caller 1 holds the lock, caller 2 parks, caller 1 releases. The
  release leaves the lock free, and caller 3, who calls \<open>acquire()\<close> only after the
  release has returned, takes the lock before the continuation of caller 2 runs; caller 2
  then finds the lock held and parks again.
\<close>

theorem C2_release_handoff_counterexample:
  "\<not> isLocked (lock_run [Acquire 1, Acquire 2, Release]) \<and>
   acquired (lock_run [Acquire 1, Acquire 2, Release, Acquire 3, Resume]) = [1, 3] \<and>
   waiters (lock_run [Acquire 1, Acquire 2, Release, Acquire 3, Resume]) = [2]"
  by (simp add: lock_run_def newChatLock_def acquire_def release_def resume_def isLocked_def)

text \<open>
  C2, amended: a release with a parked head waiter \<open>w\<close> frees the lock, dequeues
  \<open>w\<close> and schedules its continuation. If that continuation runs next, \<open>w\<close> takes the
  lock. If some caller \<open>c\<close> calls \<open>acquire()\<close> before it runs, \<open>c\<close> takes the lock and
  \<open>w\<close> parks again behind the remaining waiters.
\<close>

theorem C2_release_wakes_head_waiter:
  assumes "waiters l = w # ws" and "woken l = []"
  shows "(\<not> locked (release l) \<and> waiters (release l) = ws \<and> woken (release l) = [w]) \<and>
         (locked (resume (release l)) \<and> acquired (resume (release l)) = acquired l @ [w]
           \<and> waiters (resume (release l)) = ws) \<and>
         (locked (resume (acquire c (release l)))
           \<and> acquired (resume (acquire c (release l))) = acquired l @ [c]
           \<and> waiters (resume (acquire c (release l))) = ws @ [w])"
  using assms by (simp add: acquire_def release_def resume_def)

theorem C2_release_wakes_head_waiter_witness:
  "waiters (lock_run [Acquire 1, Acquire 2]) = [2] \<and>
   woken (lock_run [Acquire 1, Acquire 2]) = [] \<and>
   acquired (resume (release (lock_run [Acquire 1, Acquire 2]))) = [1, 2] \<and>
   acquired (resume (acquire 3 (release (lock_run [Acquire 1, Acquire 2])))) = [1, 3] \<and>
   waiters (resume (acquire 3 (release (lock_run [Acquire 1, Acquire 2])))) = [2]"
proof -
  let ?l = "lock_run [Acquire 1, Acquire 2]"
  have w: "waiters ?l = 2 # []" and k: "woken ?l = []" and a: "acquired ?l = [1]"
    by (simp_all add: lock_run_def newChatLock_def acquire_def)
  from C2_release_wakes_head_waiter[OF w k, of 3] w k a
  show ?thesis by simp
qed

end
